theory Spec2Isabelle
  imports Main
begin

section \<open>Data model\<close>

text \<open>
  Coordinates are triples of Python integers, a block is a pair of a coordinate and a kind,
  and a kind is a string over the letters x, z, o with an optional trailing h
  (\<^verbatim>\<open>StandardCoord\<close>, \<^verbatim>\<open>StandardBlock\<close> of \<^verbatim>\<open>utils.classes\<close>). Kinds are taken to be
  ASCII strings.
\<close>

type_synonym coord = "int \<times> int \<times> int"
type_synonym block = "coord \<times> string"

text \<open>Exceptions of the Python run time are values; a function that may raise returns a sum.\<close>

datatype error = TypeError | ValueError | KeyError | OtherError string

section \<open>Type compatibility: \<^verbatim>\<open>utils/constraints.py\<close>\<close>

text \<open>\<^verbatim>\<open>str.lower()\<close> on ASCII text.\<close>

definition lower_char :: "char \<Rightarrow> char" where
  "lower_char c =
     (case map_of (zip ''ABCDEFGHIJKLMNOPQRSTUVWXYZ'' ''abcdefghijklmnopqrstuvwxyz'') c of
        None \<Rightarrow> c
      | Some l \<Rightarrow> l)"

definition lower :: "string \<Rightarrow> string" where
  "lower s = map lower_char s"

text \<open>\<^verbatim>\<open>list.index(v)\<close>: the position of the first element equal to \<open>v\<close>, if there is one.\<close>

fun index_of :: "'a \<Rightarrow> 'a list \<Rightarrow> nat option" where
  "index_of v [] = None"
| "index_of v (x # xs) =
     (if x = v then Some 0 else (case index_of v xs of None \<Rightarrow> None | Some i \<Rightarrow> Some (Suc i)))"

text \<open>
  \<^verbatim>\<open>check_face_match\<close> (constraints.py, lines 3 to 38). Both kinds are lowered and cut to
  three characters, the first axis with a non-zero displacement is looked up with
  \<^verbatim>\<open>index\<close>, which raises \<^verbatim>\<open>ValueError\<close> when the two coordinates are equal, and the
  kinds are compared with that axis sliced out.
\<close>

definition check_face_match :: "coord \<Rightarrow> string \<Rightarrow> coord \<Rightarrow> string \<Rightarrow> error + bool" where
  "check_face_match source_coord source_kind target_coord target_kind =
     (let source_kind' = take 3 (lower source_kind);
          target_kind' = take 3 (lower target_kind);
          (s0, s1, s2) = source_coord;
          (t0, t1, t2) = target_coord;
          displacements = [t0 - s0, t1 - s1, t2 - s2];
          axis_displacement = map (\<lambda>axis. axis \<noteq> 0) displacements
      in case index_of True axis_displacement of
           None \<Rightarrow> Inl ValueError
         | Some idx \<Rightarrow>
             (let new_source_kind = take idx source_kind' @ drop (idx + 1) source_kind';
                  new_target_kind = take idx target_kind' @ drop (idx + 1) target_kind'
              in if \<not> new_source_kind = new_target_kind then Inr False else Inr True))"

text \<open>
  \<^verbatim>\<open>check_cube_match\<close> (lines 40 to 72). \<^verbatim>\<open>check_is_exit\<close> lives in \<^verbatim>\<open>utils/utils.py\<close>,
  which is not among the sources: it is the parameter \<open>is_exit\<close>, a function that returns a
  truth value or raises. The second call is made only when the first one passes.
\<close>

definition check_cube_match ::
  "(coord \<Rightarrow> string \<Rightarrow> coord \<Rightarrow> error + bool) \<Rightarrow> coord \<Rightarrow> string \<Rightarrow> coord \<Rightarrow> string \<Rightarrow> error + bool"
where
  "check_cube_match is_exit current_pos current_kind next_pos next_kind =
     (let current_kind' = lower current_kind;
          next_kind' = lower next_kind
      in case is_exit current_pos current_kind' next_pos of
           Inl e \<Rightarrow> Inl e
         | Inr forward \<Rightarrow>
             if \<not> forward then Inr False
             else (case is_exit next_pos next_kind' current_pos of
                     Inl e \<Rightarrow> Inl e
                   | Inr backward \<Rightarrow> if \<not> backward then Inr False else Inr True))"

text \<open>
  A \<^verbatim>\<open>for\<close> loop that appends the elements passing a test which may raise: the first
  exception ends the loop.
\<close>

fun keep_passing :: "('a \<Rightarrow> error + bool) \<Rightarrow> 'a list \<Rightarrow> error + 'a list" where
  "keep_passing test [] = Inr []"
| "keep_passing test (x # xs) =
     (case test x of
        Inl e \<Rightarrow> Inl e
      | Inr b \<Rightarrow>
          (case keep_passing test xs of
             Inl e \<Rightarrow> Inl e
           | Inr ys \<Rightarrow> Inr (if b then x # ys else ys)))"

definition all_cube_kinds :: "string list" where
  "all_cube_kinds = [''xxz'', ''xzz'', ''xzx'', ''zzx'', ''zxx'', ''zxz'']"

definition all_pipe_kinds :: "string list" where
  "all_pipe_kinds =
     [''zxo'', ''xzo'', ''oxz'', ''ozx'', ''xoz'', ''zox'',
      ''zxoh'', ''xzoh'', ''oxzh'', ''ozxh'', ''xozh'', ''zoxh'']"

text \<open>
  \<^verbatim>\<open>get_valid_next_kinds\<close> (lines 75 to 122): the family is chosen by the test
  \<^verbatim>\<open>"o" in current_kind\<close> on the kind as passed, the first loop keeps the kinds that pass
  \<^verbatim>\<open>check_cube_match\<close>, the second loop keeps those of them that pass \<^verbatim>\<open>check_face_match\<close>.
\<close>

definition get_valid_next_kinds ::
  "(coord \<Rightarrow> string \<Rightarrow> coord \<Rightarrow> error + bool) \<Rightarrow> coord \<Rightarrow> string \<Rightarrow> coord \<Rightarrow> error + string list"
where
  "get_valid_next_kinds is_exit current_pos current_kind next_pos =
     (case keep_passing (check_cube_match is_exit current_pos current_kind next_pos)
             (if CHR ''o'' \<in> set current_kind then all_cube_kinds else all_pipe_kinds) of
        Inl e \<Rightarrow> Inl e
      | Inr possible_kinds \<Rightarrow>
          keep_passing (check_face_match current_pos current_kind next_pos) possible_kinds)"

text \<open>The parameters that line 75 declares.\<close>

definition get_valid_next_kinds_params :: "string list" where
  "get_valid_next_kinds_params = [''current_pos'', ''current_kind'', ''next_pos'']"

section \<open>The search: \<^verbatim>\<open>scripts/pathfinder.py\<close>\<close>

text \<open>
  The module imports \<^verbatim>\<open>adjust_hadamards_direction\<close>, \<^verbatim>\<open>is_move_allowed\<close> and
  \<^verbatim>\<open>rotate_o_types\<close> from \<^verbatim>\<open>utils/utils_greedy_bfs.py\<close> and, through
  \<^verbatim>\<open>utils/constraints.py\<close>, \<^verbatim>\<open>check_is_exit\<close> from \<^verbatim>\<open>utils/utils.py\<close>. Neither file is
  among the sources, so the four functions are parameters, each free to return or to raise.
  The last field stands for the order in which \<^verbatim>\<open>list(set(...))\<close> lists a set of
  coordinates, which the language leaves to the implementation.
\<close>

record helpers =
  check_is_exit :: "coord \<Rightarrow> string \<Rightarrow> coord \<Rightarrow> error + bool"
  adjust_hadamards_direction :: "string \<Rightarrow> error + string"
  rotate_o_types :: "string \<Rightarrow> error + string"
  is_move_allowed :: "coord \<Rightarrow> coord \<Rightarrow> error + bool"
  list_of_set :: "coord list \<Rightarrow> coord list"

text \<open>
  What \<^verbatim>\<open>bfs_extended_3d\<close> returns: the found flag, the length (\<open>-1\<close> on failure) and
  the path (\<^verbatim>\<open>None\<close> on failure).
\<close>

type_synonym result = "bool \<times> int \<times> block list option"

text \<open>The local variables of the search that the loop reads and writes.\<close>

record search =
  queue :: "block list"
  visited :: "block \<rightharpoonup> int"
  path_length :: "block \<rightharpoonup> int"
  path :: "block \<rightharpoonup> block list"
  hadamard_flag :: bool

definition manhattan :: "coord \<Rightarrow> coord \<Rightarrow> int" where
  "manhattan a b =
     (let (x, y, z) = a; (end_x, end_y, end_z) = b
      in \<bar>x - end_x\<bar> + \<bar>y - end_y\<bar> + \<bar>z - end_z\<bar>)"

definition spatial_moves :: "coord list" where
  "spatial_moves = [(1, 0, 0), (-1, 0, 0), (0, 1, 0), (0, -1, 0), (0, 0, 1), (0, 0, -1)]"

text \<open>
  \<^verbatim>\<open>sum([p[0] + p[1] if p[0] != p[1] else 0 for p in list(zip(a, b))])\<close>, the number whose
  sign steers the Hadamard bookkeeping (lines 236 to 241 and 262 to 267).
\<close>

definition signed_sum :: "coord \<Rightarrow> coord \<Rightarrow> int" where
  "signed_sum a b =
     (let (a0, a1, a2) = a; (b0, b1, b2) = b
      in sum_list (map (\<lambda>(p0, p1). if p0 \<noteq> p1 then p0 + p1 else 0) [(a0, b0), (a1, b1), (a2, b2)]))"

text \<open>A \<^verbatim>\<open>for\<close> loop over a list whose body updates the state or raises.\<close>

fun for_each :: "('a \<Rightarrow> 's \<Rightarrow> error + 's) \<Rightarrow> 'a list \<Rightarrow> 's \<Rightarrow> error + 's" where
  "for_each body [] s = Inr s"
| "for_each body (x # xs) s =
     (case body x s of Inl e \<Rightarrow> Inl e | Inr s' \<Rightarrow> for_each body xs s')"

text \<open>
  The call of lines 252 to 254,
  \<^verbatim>\<open>get_valid_next_kinds(current_coords, current_type, next_coords, hadamard_flag=hadamard_flag)\<close>.
  Three arguments are bound by position and one by the keyword \<^verbatim>\<open>hadamard_flag\<close>; Python
  raises \<^verbatim>\<open>TypeError\<close> for a keyword that the called function does not declare, before
  its body runs.
\<close>

definition call_get_valid_next_kinds ::
  "helpers \<Rightarrow> coord \<Rightarrow> string \<Rightarrow> coord \<Rightarrow> bool \<Rightarrow> error + string list"
where
  "call_get_valid_next_kinds h current_coords current_type next_coords flag =
     (if ''hadamard_flag'' \<in> set (drop 3 get_valid_next_kinds_params)
      then get_valid_next_kinds (check_is_exit h) current_coords current_type next_coords
      else Inl TypeError)"

text \<open>
  Lines 232 to 250: a current kind with an \<^verbatim>\<open>h\<close> switches the flag off and is reoriented,
  then cut to three characters. The result is the new current kind and the new flag.
\<close>

definition reorient ::
  "helpers \<Rightarrow> block \<Rightarrow> coord \<Rightarrow> string \<Rightarrow> bool \<Rightarrow> error + string \<times> bool"
where
  "reorient h source_node current_coords current_type flag =
     (if CHR ''h'' \<in> set current_type then
        (case (if signed_sum (fst source_node) current_coords < 0
               then (case adjust_hadamards_direction h current_type of
                       Inl e \<Rightarrow> Inl e
                     | Inr adjusted \<Rightarrow> rotate_o_types h adjusted)
               else rotate_o_types h current_type) of
           Inl e \<Rightarrow> Inl e
         | Inr rotated_type \<Rightarrow> Inr (take 3 rotated_type, False))
      else Inr (current_type, flag))"

text \<open>
  Lines 256 to 290, the body of the loop over the candidate kinds of one neighbour.
\<close>

definition visit_candidate ::
  "helpers \<Rightarrow> coord list \<Rightarrow> block \<Rightarrow> coord \<Rightarrow> coord list \<Rightarrow> coord option \<Rightarrow> string \<Rightarrow> search
     \<Rightarrow> error + search"
where
  "visit_candidate h forbidden_cords current_node_info next_coords current_path_coords
       intermediate_pos next_type s =
     (case (if hadamard_flag s \<and> CHR ''o'' \<in> set next_type
            then (if signed_sum (fst current_node_info) next_coords < 0
                  then rotate_o_types h (next_type @ ''h'')
                  else Inr (next_type @ ''h''))
            else Inr next_type) of
        Inl e \<Rightarrow> Inl e
      | Inr next_type' \<Rightarrow>
          (let next_node_info = (next_coords, next_type') in
           if next_coords \<notin> set current_path_coords
              \<and> next_coords \<notin> set forbidden_cords
              \<and> (intermediate_pos = None \<or> Some next_coords \<noteq> intermediate_pos)
           then (case path_length s current_node_info of
                   None \<Rightarrow> Inl KeyError
                 | Some len \<Rightarrow>
                     (let new_path_length = len + 1 in
                      if (case visited s next_node_info of
                            None \<Rightarrow> True
                          | Some seen \<Rightarrow> new_path_length < seen)
                      then (case path s current_node_info of
                              None \<Rightarrow> Inl KeyError
                            | Some p \<Rightarrow>
                                Inr (s\<lparr>visited := (visited s)(next_node_info \<mapsto> new_path_length),
                                       queue := queue s @ [next_node_info],
                                       path_length :=
                                         (path_length s)(next_node_info \<mapsto> new_path_length),
                                       path := (path s)(next_node_info \<mapsto> p @ [next_node_info])\<rparr>))
                      else Inr s))
           else Inr s))"

text \<open>
  Lines 215 to 290, the body of the loop over the six moves. It carries the current kind,
  which line 250 overwrites, from one move to the next. \<^verbatim>\<open>scale\<close> was fixed before the loop.
\<close>

definition expand_move ::
  "helpers \<Rightarrow> block \<Rightarrow> coord list \<Rightarrow> block \<Rightarrow> int \<Rightarrow> coord \<Rightarrow> string \<times> search
     \<Rightarrow> error + string \<times> search"
where
  "expand_move h source_node forbidden_cords current_node_info scale move cs =
     (let (current_type, s) = cs;
          (x, y, z) = fst current_node_info;
          (dx, dy, dz) = move;
          next_coords = (x + dx * scale, y + dy * scale, z + dz * scale)
      in case path s current_node_info of
           None \<Rightarrow> Inl KeyError
         | Some p \<Rightarrow>
             (let current_path_coords = map fst p;
                  intermediate_pos =
                    (if CHR ''o'' \<in> set current_type \<and> scale = 2
                     then Some (x + dx * 1, y + dy * 1, z + dz * 1) else None)
              in if (case intermediate_pos of
                       None \<Rightarrow> False
                     | Some ip \<Rightarrow> ip \<in> set current_path_coords \<or> ip \<in> set forbidden_cords)
                 then Inr (current_type, s)
                 else (case reorient h source_node (fst current_node_info) current_type
                              (hadamard_flag s) of
                         Inl e \<Rightarrow> Inl e
                       | Inr (current_type', flag') \<Rightarrow>
                           (case call_get_valid_next_kinds h (fst current_node_info)
                                   current_type' next_coords flag' of
                              Inl e \<Rightarrow> Inl e
                            | Inr possible_next_types \<Rightarrow>
                                (case for_each
                                        (visit_candidate h forbidden_cords current_node_info
                                           next_coords current_path_coords intermediate_pos)
                                        possible_next_types (s\<lparr>hadamard_flag := flag'\<rparr>) of
                                   Inl e \<Rightarrow> Inl e
                                 | Inr s' \<Rightarrow> Inr (current_type', s'))))))"

text \<open>
  Lines 185 to 290, one pass of the \<^verbatim>\<open>while\<close> loop on a state whose queue is
  \<open>current_node_info # rest\<close>: the distance bound, the goal test, the expansion. The pass
  returns from the function, raises, or hands the next state to the loop.
\<close>

datatype pass = Return result | Continue search

definition bfs_pass ::
  "helpers \<Rightarrow> block \<Rightarrow> block \<Rightarrow> coord list \<Rightarrow> int \<Rightarrow> block \<Rightarrow> search \<Rightarrow> error + pass"
where
  "bfs_pass h source_node target_node forbidden_cords initial_manhattan_distance
       current_node_info s =
     (let (current_coords, current_type) = current_node_info;
          (end_coords, end_type) = target_node;
          current_manhattan_distance = manhattan current_coords end_coords
      in if current_manhattan_distance > 6 * initial_manhattan_distance
         then Inr (Return (False, -1, None))
         else if current_coords = end_coords \<and> (end_type = ''ooo'' \<or> current_type = end_type)
         then (case path_length s current_node_info of
                 None \<Rightarrow> Inl KeyError
               | Some len \<Rightarrow>
                   (case path s current_node_info of
                      None \<Rightarrow> Inl KeyError
                    | Some p \<Rightarrow> Inr (Return (True, len, Some p))))
         else (let scale = (if CHR ''o'' \<in> set current_type then 2 else 1)
               in case for_each
                         (expand_move h source_node forbidden_cords current_node_info scale)
                         spatial_moves (current_type, s) of
                    Inl e \<Rightarrow> Inl e
                  | Inr (_, s') \<Rightarrow> Inr (Continue s')))"

text \<open>
  Lines 184 to 291, the \<^verbatim>\<open>while queue\<close> loop. A run that never leaves the loop has the
  value \<open>None\<close>.
\<close>

partial_function (option) bfs_while ::
  "helpers \<Rightarrow> block \<Rightarrow> block \<Rightarrow> coord list \<Rightarrow> int \<Rightarrow> search \<Rightarrow> (error + result) option"
where
  "bfs_while h source_node target_node forbidden_cords initial_manhattan_distance s =
     (case queue s of
        [] \<Rightarrow> Some (Inr (False, -1, None))
      | current_node_info # rest \<Rightarrow>
          (case bfs_pass h source_node target_node forbidden_cords initial_manhattan_distance
                  current_node_info (s\<lparr>queue := rest\<rparr>) of
             Inl e \<Rightarrow> Some (Inl e)
           | Inr (Return r) \<Rightarrow> Some (Inr r)
           | Inr (Continue s') \<Rightarrow>
               bfs_while h source_node target_node forbidden_cords initial_manhattan_distance s'))"

text \<open>
  \<^verbatim>\<open>bfs_extended_3d\<close> (lines 140 to 291). The obstacle list is the caller's own list object:
  lines 168 to 171 take the first occurrence of the source coordinate and then of the target
  coordinate out of it, so the function returns the list as it leaves it, next to what the
  call itself returns or raises. Printing the progress character is left out.
\<close>

definition bfs_extended_3d ::
  "helpers \<Rightarrow> block \<Rightarrow> block \<Rightarrow> coord list \<Rightarrow> bool \<Rightarrow> coord list \<times> (error + result) option"
where
  "bfs_extended_3d h source_node target_node forbidden_cords flag =
     (let (start_coords, _) = source_node;
          (end_coords, end_type) = target_node;
          forbidden_cords1 =
            (if start_coords \<in> set forbidden_cords
             then remove1 start_coords forbidden_cords else forbidden_cords);
          forbidden_cords2 =
            (if end_coords \<in> set forbidden_cords1
             then remove1 end_coords forbidden_cords1 else forbidden_cords1);
          s = \<lparr>queue = [source_node],
               visited = [source_node \<mapsto> 0],
               path_length = [source_node \<mapsto> 0],
               path = [source_node \<mapsto> [source_node]],
               hadamard_flag = flag\<rparr>;
          initial_manhattan_distance = manhattan start_coords end_coords
      in (forbidden_cords2,
          bfs_while h source_node target_node forbidden_cords2 initial_manhattan_distance s))"

section \<open>The driver and its generators\<close>

text \<open>
  \<^verbatim>\<open>generate_tentative_target_types\<close> (lines 430 to 468). The override is an
  \<^verbatim>\<open>Optional[str]\<close> tested with \<^verbatim>\<open>if overwrite_target_type:\<close>, which \<^verbatim>\<open>None\<close> and the empty
  string both fail.
\<close>

definition generate_tentative_target_types :: "string \<Rightarrow> string option \<Rightarrow> string list" where
  "generate_tentative_target_types target_node_zx_type overwrite_target_type =
     (case (case overwrite_target_type of
              None \<Rightarrow> None
            | Some kind \<Rightarrow> if kind = [] then None else Some kind) of
        Some kind \<Rightarrow> [kind]
      | None \<Rightarrow>
          (let X = [''xxz'', ''xzx'', ''zxx''];
               Z = [''xzz'', ''zzx'', ''zxz''];
               BOUNDARY = [''ooo''];
               SIMPLE = [''zxo'', ''xzo'', ''oxz'', ''ozx'', ''xoz'', ''zox''];
               HADAMARD = [''zxoh'', ''xzoh'', ''oxzh'', ''ozxh'', ''xozh'', ''zoxh'']
           in if target_node_zx_type \<in> set [''X'', ''Z'']
              then (if target_node_zx_type = ''X'' then X else Z)
              else if target_node_zx_type = ''O'' then BOUNDARY
              else if target_node_zx_type = ''SIMPLE'' then SIMPLE
              else if target_node_zx_type = ''HADAMARD'' then HADAMARD
              else [target_node_zx_type]))"

text \<open>
  \<^verbatim>\<open>determine_grid_size\<close> (lines 397 to 427): the bounding box of the start, the end and the
  obstacles, widened by the margin.
\<close>

type_synonym bounds = "int \<times> int \<times> int \<times> int \<times> int \<times> int"

definition determine_grid_size :: "coord \<Rightarrow> coord \<Rightarrow> coord list \<Rightarrow> int \<Rightarrow> bounds" where
  "determine_grid_size start_coords end_coords obstacle_coords margin =
     (let all_coords = [start_coords, end_coords] @ obstacle_coords;
          min_x = Min (set (map (\<lambda>(x, y, z). x) all_coords)) - margin;
          max_x = Max (set (map (\<lambda>(x, y, z). x) all_coords)) + margin;
          min_y = Min (set (map (\<lambda>(x, y, z). y) all_coords)) - margin;
          max_y = Max (set (map (\<lambda>(x, y, z). y) all_coords)) + margin;
          min_z = Min (set (map (\<lambda>(x, y, z). z) all_coords)) - margin;
          max_z = Max (set (map (\<lambda>(x, y, z). z) all_coords)) + margin
      in (min_x, max_x, min_y, max_y, min_z, max_z))"

text \<open>
  The loop that \<^verbatim>\<open>generate_tentative_target_position\<close> runs on each level: the first
  candidate inside the bounds that is no obstacle and that \<^verbatim>\<open>is_move_allowed\<close> accepts.
\<close>

fun first_target :: "helpers \<Rightarrow> coord \<Rightarrow> bounds \<Rightarrow> coord list \<Rightarrow> coord list \<Rightarrow> error + coord option"
where
  "first_target h source_coords b obstacle_coords [] = Inr None"
| "first_target h source_coords b obstacle_coords (t # ts) =
     (let (min_x, max_x, min_y, max_y, min_z, max_z) = b;
          (tx, ty, tz) = t
      in if min_x \<le> tx \<and> tx \<le> max_x \<and> min_y \<le> ty \<and> ty \<le> max_y \<and> min_z \<le> tz \<and> tz \<le> max_z
         then (if t \<notin> set obstacle_coords
               then (case is_move_allowed h source_coords t of
                       Inl e \<Rightarrow> Inl e
                     | Inr allowed \<Rightarrow>
                         if allowed then Inr (Some t)
                         else first_target h source_coords b obstacle_coords ts)
               else first_target h source_coords b obstacle_coords ts)
         else first_target h source_coords b obstacle_coords ts)"

text \<open>\<^verbatim>\<open>generate_tentative_target_position\<close> (lines 297 to 394).\<close>

definition generate_tentative_target_position ::
  "helpers \<Rightarrow> block \<Rightarrow> bounds \<Rightarrow> coord list \<Rightarrow> coord option \<Rightarrow> error + coord option"
where
  "generate_tentative_target_position h source_node b obstacle_coords overwrite_target_coords =
     (case overwrite_target_coords of
        Some c \<Rightarrow> Inr (Some c)
      | None \<Rightarrow>
          (let (sx, sy, sz) = fst source_node;
               potential_targets_level_1 =
                 [(sx + 3, sy, sz), (sx - 3, sy, sz), (sx, sy + 3, sz),
                  (sx, sy - 3, sz), (sx, sy, sz + 3), (sx, sy, sz - 3)];
               potential_targets_level_2 =
                 list_of_set h
                   (concat (map (\<lambda>dx.
                      concat (map (\<lambda>dy. [(sx + dx, sy + dy, sz), (sx + dy, sy + dx, sz)]) [-3, 3])
                      @ concat (map (\<lambda>dz. [(sx + dx, sy, sz + dz), (sx + dz, sy, sz + dx)]) [-3, 3])
                      @ concat (map (\<lambda>dy.
                          concat (map (\<lambda>dz. [(sx, sy + dy, sz + dz), (sx, sy + dz, sz + dy)])
                            [-3, 3])) [-3, 3])) [-3, 3]));
               potential_targets_level_3 =
                 concat (map (\<lambda>dx. concat (map (\<lambda>dy. concat (map (\<lambda>dz.
                     if dx \<noteq> 0 \<or> dy \<noteq> 0 \<or> dz \<noteq> 0 then [(sx + dx, sy + dy, sz + dz)] else [])
                   [-3, 3])) [-3, 3])) [-3, 3])
           in case first_target h (fst source_node) b obstacle_coords potential_targets_level_1 of
                Inl e \<Rightarrow> Inl e
              | Inr (Some t) \<Rightarrow> Inr (Some t)
              | Inr None \<Rightarrow>
                  (case first_target h (fst source_node) b obstacle_coords
                          potential_targets_level_2 of
                     Inl e \<Rightarrow> Inl e
                   | Inr (Some t) \<Rightarrow> Inr (Some t)
                   | Inr None \<Rightarrow>
                       first_target h (fst source_node) b obstacle_coords
                         potential_targets_level_3)))"

text \<open>
  The local variables of \<^verbatim>\<open>run_bfs_for_all_potential_target_nodes\<close> that its loops write.
  \<open>length_best\<close> and \<open>path_best\<close> are the variables \<^verbatim>\<open>length\<close> and \<^verbatim>\<open>path\<close>;
  \<open>obstacle_coords\<close> is the one list object that every search of the run is handed.
\<close>

record round =
  all_paths_from_round :: "block list option list"
  min_path_length :: "int option"
  path_found :: bool
  length_best :: "int option"
  path_best :: "block list option"
  obstacle_coords :: "coord list"

text \<open>Lines 120 to 127: what the driver does with the result of one search.\<close>

definition keep_shortest :: "result \<Rightarrow> round \<Rightarrow> round" where
  "keep_shortest candidate r =
     (let (candidate_path_found, candidate_length, candidate_path) = candidate
      in if candidate_path_found
         then (let r1 = r\<lparr>path_found := True,
                          all_paths_from_round := all_paths_from_round r @ [candidate_path]\<rparr>
               in if (case min_path_length r1 of
                        None \<Rightarrow> True
                      | Some shortest \<Rightarrow> candidate_length < shortest)
                  then r1\<lparr>min_path_length := Some candidate_length,
                          length_best := Some candidate_length,
                          path_best := candidate_path\<rparr>
                  else r1)
         else r)"

text \<open>
  Lines 108 to 127, the loop over the candidate kinds of the target. Each search is handed
  the list the previous one left; an exception of a search leaves the driver, which has no
  handler.
\<close>

fun search_all_types ::
  "helpers \<Rightarrow> block \<Rightarrow> coord \<Rightarrow> bool \<Rightarrow> string list \<Rightarrow> round \<Rightarrow> (error + round) option"
where
  "search_all_types h source_node tentative_target_position flag [] r = Some (Inr r)"
| "search_all_types h source_node tentative_target_position flag (potential_target_type # rest) r =
     (case bfs_extended_3d h source_node (tentative_target_position, potential_target_type)
             (obstacle_coords r) flag of
        (_, None) \<Rightarrow> None
      | (_, Some (Inl e)) \<Rightarrow> Some (Inl e)
      | (left, Some (Inr candidate)) \<Rightarrow>
          search_all_types h source_node tentative_target_position flag rest
            (keep_shortest candidate (r\<lparr>obstacle_coords := left\<rparr>)))"

text \<open>
  Lines 77 to 131, the loop over the attempts. \<^verbatim>\<open>found_path_at_current_distance\<close> is
  \<^verbatim>\<open>False\<close> throughout, so lines 130 and 131 change nothing.
\<close>

fun attempts ::
  "helpers \<Rightarrow> block \<Rightarrow> string \<Rightarrow> int \<Rightarrow> int \<Rightarrow> coord option \<times> string option \<Rightarrow> bounds \<Rightarrow> bool
     \<Rightarrow> nat \<Rightarrow> round \<Rightarrow> (error + round) option"
where
  "attempts h source_node target_node_zx_type distance max_distance overwrite_target_node b flag
       0 r = Some (Inr r)"
| "attempts h source_node target_node_zx_type distance max_distance overwrite_target_node b flag
       (Suc n) r =
     (if distance > max_distance \<or> path_found r then Some (Inr r)
      else (case generate_tentative_target_position h source_node b (obstacle_coords r)
                   (fst overwrite_target_node) of
              Inl e \<Rightarrow> Some (Inl e)
            | Inr None \<Rightarrow>
                attempts h source_node target_node_zx_type distance max_distance
                  overwrite_target_node b flag n r
            | Inr (Some tentative_target_position) \<Rightarrow>
                (case search_all_types h source_node tentative_target_position flag
                        (generate_tentative_target_types target_node_zx_type
                           (case snd overwrite_target_node of
                              None \<Rightarrow> None
                            | Some kind \<Rightarrow> if kind = [] then None else Some kind))
                        r of
                   None \<Rightarrow> None
                 | Some (Inl e) \<Rightarrow> Some (Inl e)
                 | Some (Inr r') \<Rightarrow>
                     attempts h source_node target_node_zx_type distance max_distance
                       overwrite_target_node b flag n r')))"

text \<open>
  \<^verbatim>\<open>run_bfs_for_all_potential_target_nodes\<close> (lines 16 to 134). The driver works on a copy
  of \<^verbatim>\<open>occupied_coords\<close>, without the first occurrence of the source coordinate, and
  returns the found flag, the length and the path of the winner and the list of all paths.
\<close>

definition run_bfs_for_all_potential_target_nodes ::
  "helpers \<Rightarrow> block \<Rightarrow> string \<Rightarrow> int \<Rightarrow> int \<Rightarrow> int \<Rightarrow> coord option \<times> string option \<Rightarrow> coord list
     \<Rightarrow> bool \<Rightarrow> (error + bool \<times> int option \<times> block list option \<times> block list option list) option"
where
  "run_bfs_for_all_potential_target_nodes h source_node target_node_zx_type distance max_distance
       attempts_per_distance overwrite_target_node occupied_coords flag =
     (let (start_coords, _) = source_node;
          (overwrite_target_coords, overwrite_target_type) = overwrite_target_node;
          obstacles =
            (if occupied_coords \<noteq> [] \<and> start_coords \<in> set occupied_coords
             then remove1 start_coords occupied_coords else occupied_coords);
          b = determine_grid_size start_coords
                (case overwrite_target_coords of None \<Rightarrow> (0, 0, 0) | Some c \<Rightarrow> c) obstacles 5
      in case attempts h source_node target_node_zx_type distance max_distance
                overwrite_target_node b flag (nat attempts_per_distance)
                \<lparr>all_paths_from_round = [], min_path_length = None, path_found = False,
                 length_best = None, path_best = None, obstacle_coords = obstacles\<rparr> of
           None \<Rightarrow> None
         | Some (Inl e) \<Rightarrow> Some (Inl e)
         | Some (Inr r) \<Rightarrow>
             Some (Inr (path_found r, length_best r, path_best r, all_paths_from_round r)))"

section \<open>Notions used in the statements\<close>

text \<open>Two coordinates that differ along exactly one axis.\<close>

definition one_axis_apart :: "coord \<Rightarrow> coord \<Rightarrow> bool" where
  "one_axis_apart a b =
     (let (a0, a1, a2) = a; (b0, b1, b2) = b
      in length (filter (\<lambda>differs. differs) [a0 \<noteq> b0, a1 \<noteq> b1, a2 \<noteq> b2]) = 1)"

text \<open>
  One instance of the parameters, for statements about concrete runs: every exit and every
  move is accepted, kinds are left as they are, and a set is listed in the order of first
  occurrence. The general statements below hold for every instance.
\<close>

definition accepting_helpers :: helpers where
  "accepting_helpers =
     \<lparr>check_is_exit = (\<lambda>_ _ _. Inr True),
      adjust_hadamards_direction = (\<lambda>kind. Inr kind),
      rotate_o_types = (\<lambda>kind. Inr kind),
      is_move_allowed = (\<lambda>_ _. Inr True),
      list_of_set = remdups\<rparr>"

text \<open>
  The searches of a run of the driver. The three functions below follow the loop over the
  target kinds, the loop over the attempts and the driver itself, and list what each call
  of \<^verbatim>\<open>bfs_extended_3d\<close> returned, in the order of the calls, next to the obstacle list as
  the last call left it: the individual search results that the driver chooses from.
\<close>

fun searches_of_types ::
  "helpers \<Rightarrow> block \<Rightarrow> coord \<Rightarrow> bool \<Rightarrow> string list \<Rightarrow> coord list
     \<Rightarrow> (error + result list \<times> coord list) option"
where
  "searches_of_types h source_node tentative_target_position flag [] obstacles =
     Some (Inr ([], obstacles))"
| "searches_of_types h source_node tentative_target_position flag (potential_target_type # rest)
       obstacles =
     (case bfs_extended_3d h source_node (tentative_target_position, potential_target_type)
             obstacles flag of
        (_, None) \<Rightarrow> None
      | (_, Some (Inl e)) \<Rightarrow> Some (Inl e)
      | (left, Some (Inr candidate)) \<Rightarrow>
          (case searches_of_types h source_node tentative_target_position flag rest left of
             None \<Rightarrow> None
           | Some (Inl e) \<Rightarrow> Some (Inl e)
           | Some (Inr (candidates, left')) \<Rightarrow> Some (Inr (candidate # candidates, left'))))"

fun searches_of_attempts ::
  "helpers \<Rightarrow> block \<Rightarrow> string \<Rightarrow> int \<Rightarrow> int \<Rightarrow> coord option \<times> string option \<Rightarrow> bounds \<Rightarrow> bool
     \<Rightarrow> nat \<Rightarrow> coord list \<Rightarrow> bool \<Rightarrow> (error + result list \<times> coord list) option"
where
  "searches_of_attempts h source_node target_node_zx_type distance max_distance
       overwrite_target_node b flag 0 obstacles found = Some (Inr ([], obstacles))"
| "searches_of_attempts h source_node target_node_zx_type distance max_distance
       overwrite_target_node b flag (Suc n) obstacles found =
     (if distance > max_distance \<or> found then Some (Inr ([], obstacles))
      else (case generate_tentative_target_position h source_node b obstacles
                   (fst overwrite_target_node) of
              Inl e \<Rightarrow> Some (Inl e)
            | Inr None \<Rightarrow>
                searches_of_attempts h source_node target_node_zx_type distance max_distance
                  overwrite_target_node b flag n obstacles found
            | Inr (Some tentative_target_position) \<Rightarrow>
                (case searches_of_types h source_node tentative_target_position flag
                        (generate_tentative_target_types target_node_zx_type
                           (case snd overwrite_target_node of
                              None \<Rightarrow> None
                            | Some kind \<Rightarrow> if kind = [] then None else Some kind))
                        obstacles of
                   None \<Rightarrow> None
                 | Some (Inl e) \<Rightarrow> Some (Inl e)
                 | Some (Inr (candidates, left)) \<Rightarrow>
                     (case searches_of_attempts h source_node target_node_zx_type distance
                             max_distance overwrite_target_node b flag n left
                             (found \<or> list_ex fst candidates) of
                        None \<Rightarrow> None
                      | Some (Inl e) \<Rightarrow> Some (Inl e)
                      | Some (Inr (later, left')) \<Rightarrow> Some (Inr (candidates @ later, left'))))))"

definition searches_of_run ::
  "helpers \<Rightarrow> block \<Rightarrow> string \<Rightarrow> int \<Rightarrow> int \<Rightarrow> int \<Rightarrow> coord option \<times> string option \<Rightarrow> coord list
     \<Rightarrow> bool \<Rightarrow> (error + result list) option"
where
  "searches_of_run h source_node target_node_zx_type distance max_distance
       attempts_per_distance overwrite_target_node occupied_coords flag =
     (let obstacles =
            (if occupied_coords \<noteq> [] \<and> fst source_node \<in> set occupied_coords
             then remove1 (fst source_node) occupied_coords else occupied_coords);
          b = determine_grid_size (fst source_node)
                (case fst overwrite_target_node of None \<Rightarrow> (0, 0, 0) | Some c \<Rightarrow> c) obstacles 5
      in case searches_of_attempts h source_node target_node_zx_type distance max_distance
                overwrite_target_node b flag (nat attempts_per_distance) obstacles False of
           None \<Rightarrow> None
         | Some (Inl e) \<Rightarrow> Some (Inl e)
         | Some (Inr (candidates, _)) \<Rightarrow> Some (Inr candidates))"


text \<open>What the driver's variables hold after the searches \<open>candidates\<close>.\<close>

definition settle :: "round \<Rightarrow> (error + result list \<times> coord list) option \<Rightarrow> (error + round) option"
where
  "settle r outcome =
     (case outcome of
        None \<Rightarrow> None
      | Some (Inl e) \<Rightarrow> Some (Inl e)
      | Some (Inr (candidates, left)) \<Rightarrow>
          Some (Inr ((fold keep_shortest candidates r)\<lparr>obstacle_coords := left\<rparr>)))"

text \<open>
  The variables \<open>r\<close> agree with the list of search results \<open>candidates\<close>: all successful
  paths are recorded in order, and the winner is a successful result that no successful
  result undercuts.
\<close>

definition summarises :: "result list \<Rightarrow> round \<Rightarrow> bool" where
  "summarises candidates r \<longleftrightarrow>
     all_paths_from_round r = map (snd \<circ> snd) (filter fst candidates)
     \<and> path_found r = list_ex fst candidates
     \<and> min_path_length r = length_best r
     \<and> (\<forall>c \<in> set candidates. fst c \<longrightarrow> (\<exists>m. length_best r = Some m \<and> m \<le> fst (snd c)))
     \<and> (list_ex fst candidates \<longrightarrow>
          (\<exists>n. (True, n, path_best r) \<in> set candidates \<and> length_best r = Some n))
     \<and> (\<not> list_ex fst candidates \<longrightarrow> length_best r = None \<and> path_best r = None)"

text \<open>The driver's variables before the first search (lines 56 to 62).\<close>

definition no_results :: "coord list \<Rightarrow> round" where
  "no_results obstacles =
     \<lparr>all_paths_from_round = [], min_path_length = None, path_found = False,
      length_best = None, path_best = None, obstacle_coords = obstacles\<rparr>"

section \<open>Face match\<close>

lemma axis_flip:
  fixes s0 s1 s2 t0 t1 t2 :: int
  shows "index_of True [t0 - s0 \<noteq> 0, t1 - s1 \<noteq> 0, t2 - s2 \<noteq> 0]
   = index_of True [s0 - t0 \<noteq> 0, s1 - t1 \<noteq> 0, s2 - t2 \<noteq> 0]"
proof -
  have "(t0 - s0 \<noteq> 0) = (s0 - t0 \<noteq> 0)" "(t1 - s1 \<noteq> 0) = (s1 - t1 \<noteq> 0)"
    "(t2 - s2 \<noteq> 0) = (s2 - t2 \<noteq> 0)" by auto
  then show ?thesis by presburger
qed

lemma check_face_match_flip:
  "check_face_match a kindA b kindB = check_face_match b kindB a kindA"
proof -
  obtain a0 a1 a2 b0 b1 b2 where ab: "a = (a0, a1, a2)" "b = (b0, b1, b2)"
    by (metis prod_cases3)
  show ?thesis
    unfolding check_face_match_def ab Let_def prod.case list.map axis_flip [of b0 a0 b1 a1 b2 a2]
    by (auto split: option.splits)
qed

lemma apart_index:
  "one_axis_apart (a0, a1, a2) (b0, b1, b2)
   \<Longrightarrow> \<exists>i. index_of True [b0 - a0 \<noteq> 0, b1 - a1 \<noteq> 0, b2 - a2 \<noteq> 0] = Some i"
  by (auto simp: one_axis_apart_def split: if_splits)

text \<open>
  C9. For two coordinates that differ along exactly one axis and any two kinds,
  \<^verbatim>\<open>check_face_match(a, kindA, b, kindB)\<close> and \<^verbatim>\<open>check_face_match(b, kindB, a, kindA)\<close>
  are the same truth value, and neither call raises.
\<close>

theorem check_face_match_symmetric:
  assumes "one_axis_apart a b"
  shows "check_face_match a kindA b kindB = check_face_match b kindB a kindA
         \<and> (\<exists>verdict. check_face_match a kindA b kindB = Inr verdict)"
proof -
  obtain a0 a1 a2 b0 b1 b2 where ab: "a = (a0, a1, a2)" "b = (b0, b1, b2)"
    by (metis prod_cases3)
  from assms obtain i where "index_of True [b0 - a0 \<noteq> 0, b1 - a1 \<noteq> 0, b2 - a2 \<noteq> 0] = Some i"
    unfolding ab using apart_index by blast
  then have "\<exists>verdict. check_face_match a kindA b kindB = Inr verdict"
    unfolding check_face_match_def ab by (auto simp: Let_def)
  then show ?thesis using check_face_match_flip by blast
qed

theorem check_face_match_symmetric_witness:
  "one_axis_apart (0, 0, 0) (0, 1, 0)
   \<and> check_face_match (0, 0, 0) ''xxz'' (0, 1, 0) ''xozh'' = Inr True
   \<and> check_face_match (0, 1, 0) ''xozh'' (0, 0, 0) ''xxz'' = Inr True"
proof -
  have h: "one_axis_apart (0, 0, 0) (0, 1, 0)" by (simp add: one_axis_apart_def)
  have v: "check_face_match (0, 0, 0) ''xxz'' (0, 1, 0) ''xozh'' = Inr True"
    by (simp add: check_face_match_def lower_def lower_char_def)
  from check_face_match_symmetric [OF h, of "''xxz''" "''xozh''"] h v show ?thesis by simp
qed

section \<open>The search\<close>

text \<open>
  The keyword \<^verbatim>\<open>hadamard_flag\<close> is not among the parameters of \<^verbatim>\<open>get_valid_next_kinds\<close>,
  so the call of lines 252 to 254 raises whatever it is given.
\<close>

lemma call_raises: "call_get_valid_next_kinds h c k n f = Inl TypeError"
  by (simp add: call_get_valid_next_kinds_def get_valid_next_kinds_params_def)

text \<open>A move that does not raise leaves the kind and the search state as they were.\<close>

lemma expand_move_keeps:
  "expand_move h src forb cur scale mv (ct, s) = Inr r \<Longrightarrow> r = (ct, s)"
  unfolding expand_move_def call_raises
  by (auto simp: Let_def split: prod.splits option.splits sum.splits if_splits)

lemma for_each_expand_keeps:
  "for_each (expand_move h src forb cur scale) mvs cs = Inr r \<Longrightarrow> r = cs"
proof (induction mvs arbitrary: cs)
  case Nil
  then show ?case by simp
next
  case (Cons mv mvs)
  obtain ct s where cs: "cs = (ct, s)" by (cases cs)
  from Cons.prems obtain r' where
    step: "expand_move h src forb cur scale mv cs = Inr r'" and
    rest: "for_each (expand_move h src forb cur scale) mvs r' = Inr r"
    by (auto split: sum.splits)
  from step have "r' = cs" unfolding cs by (rule expand_move_keeps)
  with rest Cons.IH show ?case by simp
qed

lemma manhattan_nonneg: "0 \<le> manhattan a b"
  by (cases a, cases b) (simp add: manhattan_def)

lemma bfs_while_empty:
  "queue s = [] \<Longrightarrow> bfs_while h src tgt forb d s = Some (Inr (False, -1, None))"
  by (subst bfs_while.simps) simp

text \<open>
  The first pass of the loop on the state that \<^verbatim>\<open>bfs_extended_3d\<close> sets up: the source is
  never beyond the distance bound; it is the goal, or it is expanded, and an expansion that
  does not raise leaves the queue empty.
\<close>

lemma first_pass:
  "bfs_while h src tgt forb (manhattan (fst src) (fst tgt))
      \<lparr>queue = [src], visited = [src \<mapsto> 0], path_length = [src \<mapsto> 0],
       path = [src \<mapsto> [src]], hadamard_flag = flag\<rparr> =
   (if fst src = fst tgt \<and> (snd tgt = ''ooo'' \<or> snd src = snd tgt)
    then Some (Inr (True, 0, Some [src]))
    else (case for_each (expand_move h src forb src (if CHR ''o'' \<in> set (snd src) then 2 else 1))
                 spatial_moves
                 (snd src, \<lparr>queue = [], visited = [src \<mapsto> 0], path_length = [src \<mapsto> 0],
                            path = [src \<mapsto> [src]], hadamard_flag = flag\<rparr>) of
            Inl e \<Rightarrow> Some (Inl e)
          | Inr _ \<Rightarrow> Some (Inr (False, -1, None))))"
proof -
  have bound: "\<not> manhattan (fst src) (fst tgt) > 6 * manhattan (fst src) (fst tgt)"
    using manhattan_nonneg [of "fst src" "fst tgt"] by simp
  show ?thesis
    apply (subst bfs_while.simps)
    apply (cases src, cases tgt)
    using bound
    apply (auto simp: bfs_pass_def Let_def bfs_while_empty split: sum.splits
                dest!: for_each_expand_keeps)
    done
qed

lemma bfs_extended_3d_unfold:
  "bfs_extended_3d h src tgt obs flag =
     (remove1 (fst tgt) (remove1 (fst src) obs),
      bfs_while h src tgt (remove1 (fst tgt) (remove1 (fst src) obs))
        (manhattan (fst src) (fst tgt))
        \<lparr>queue = [src], visited = [src \<mapsto> 0], path_length = [src \<mapsto> 0],
         path = [src \<mapsto> [src]], hadamard_flag = flag\<rparr>)"
  by (cases src, cases tgt) (simp add: bfs_extended_3d_def Let_def remove1_idem)

lemma bfs_extended_3d_run:
  "snd (bfs_extended_3d h src tgt obs flag) =
   (if fst src = fst tgt \<and> (snd tgt = ''ooo'' \<or> snd src = snd tgt)
    then Some (Inr (True, 0, Some [src]))
    else (case for_each (expand_move h src (remove1 (fst tgt) (remove1 (fst src) obs)) src
                   (if CHR ''o'' \<in> set (snd src) then 2 else 1))
                 spatial_moves
                 (snd src, \<lparr>queue = [], visited = [src \<mapsto> 0], path_length = [src \<mapsto> 0],
                            path = [src \<mapsto> [src]], hadamard_flag = flag\<rparr>) of
            Inl e \<Rightarrow> Some (Inl e)
          | Inr _ \<Rightarrow> Some (Inr (False, -1, None))))"
  unfolding bfs_extended_3d_unfold snd_conv by (rule first_pass)

text \<open>
  C1 (the code raises). From the cube \<^verbatim>\<open>((0, 0, 0), "xxz")\<close> towards the target
  \<^verbatim>\<open>((1, 0, 0), "oxz")\<close>, with no obstacles and the Hadamard flag off, the first expansion
  queries \<^verbatim>\<open>get_valid_next_kinds\<close> and the call raises \<^verbatim>\<open>TypeError\<close>, whatever the
  helper functions do: the search does not end with the result \<^verbatim>\<open>(False, -1, None)\<close>.
\<close>

theorem bfs_extended_3d_raises:
  "snd (bfs_extended_3d h ((0, 0, 0), ''xxz'') ((1, 0, 0), ''oxz'') [] False)
     = Some (Inl TypeError)"
  by (simp add: bfs_extended_3d_run spatial_moves_def expand_move_def reorient_def call_raises)

text \<open>
  C2 (the code finds no path beyond the source). On the first scenario of the
  specification, source \<^verbatim>\<open>((0, 0, 0), "xxz")\<close> and target \<^verbatim>\<open>((3, 0, 0), "ooo")\<close> with no
  obstacles, the search raises \<^verbatim>\<open>TypeError\<close> instead of returning a path; and whenever
  \<^verbatim>\<open>bfs_extended_3d\<close> does return success, the target coordinate is the source coordinate,
  the length is 0 and the path is the source block alone. No path with an edge is ever
  returned, so none of the shortest length either.
\<close>

theorem bfs_extended_3d_no_path_beyond_source:
  "snd (bfs_extended_3d h ((0, 0, 0), ''xxz'') ((3, 0, 0), ''ooo'') [] False) = Some (Inl TypeError)
   \<and> (\<forall>n p. snd (bfs_extended_3d h source_node target_node forbidden_cords flag)
               = Some (Inr (True, n, p))
            \<longrightarrow> fst target_node = fst source_node \<and> n = 0 \<and> p = Some [source_node])"
proof
  show "snd (bfs_extended_3d h ((0, 0, 0), ''xxz'') ((3, 0, 0), ''ooo'') [] False)
          = Some (Inl TypeError)"
    by (simp add: bfs_extended_3d_run spatial_moves_def expand_move_def reorient_def call_raises)
  show "\<forall>n p. snd (bfs_extended_3d h source_node target_node forbidden_cords flag)
               = Some (Inr (True, n, p))
            \<longrightarrow> fst target_node = fst source_node \<and> n = 0 \<and> p = Some [source_node]"
    by (auto simp: bfs_extended_3d_run split: if_splits sum.splits)
qed

theorem bfs_extended_3d_no_path_beyond_source_witness:
  "snd (bfs_extended_3d accepting_helpers ((2, 0, 1), ''xxz'') ((2, 0, 1), ''ooo'') [(5, 0, 0)] True)
     = Some (Inr (True, 0, Some [((2, 0, 1), ''xxz'')]))
   \<and> fst ((2::int, 0::int, 1::int), ''ooo'') = fst ((2::int, 0::int, 1::int), ''xxz'')
   \<and> snd (bfs_extended_3d accepting_helpers ((0, 0, 0), ''xxz'') ((3, 0, 0), ''ooo'') [] False)
       = Some (Inl TypeError)"
proof -
  have run: "snd (bfs_extended_3d accepting_helpers ((2, 0, 1), ''xxz'') ((2, 0, 1), ''ooo'')
                [(5, 0, 0)] True) = Some (Inr (True, 0, Some [((2, 0, 1), ''xxz'')]))"
    by (simp add: bfs_extended_3d_run)
  from bfs_extended_3d_no_path_beyond_source
         [of accepting_helpers "((2, 0, 1), ''xxz'')" "((2, 0, 1), ''ooo'')" "[(5, 0, 0)]" True]
       run
  show ?thesis by simp
qed

text \<open>
  C3. Whenever the state taken from the queue lies farther from the target coordinate than
  six times the Manhattan distance between source and target, the loop ends the whole
  search with \<^verbatim>\<open>(False, -1, None)\<close>, whatever else is still waiting in the queue and
  whatever the maps hold.
\<close>

theorem bfs_while_distance_abort:
  assumes "queue s = current_node_info # rest"
    and "manhattan (fst current_node_info) (fst target_node)
           > 6 * manhattan (fst source_node) (fst target_node)"
  shows "bfs_while h source_node target_node forbidden_cords
           (manhattan (fst source_node) (fst target_node)) s = Some (Inr (False, -1, None))"
proof -
  obtain current_coords current_type where c: "current_node_info = (current_coords, current_type)"
    by (cases current_node_info)
  obtain end_coords end_type where t: "target_node = (end_coords, end_type)"
    by (cases target_node)
  from assms(2) have "bfs_pass h source_node target_node forbidden_cords
      (manhattan (fst source_node) (fst target_node)) current_node_info (s\<lparr>queue := rest\<rparr>)
      = Inr (Return (False, -1, None))"
    unfolding c t by (simp add: bfs_pass_def)
  with assms(1) show ?thesis by (subst bfs_while.simps) simp
qed

theorem bfs_while_distance_abort_witness:
  "manhattan (fst ((8::int, 0::int, 0::int), ''xxz'')) (fst ((1::int, 0::int, 0::int), ''ooo''))
     > 6 * manhattan (fst ((0::int, 0::int, 0::int), ''xxz'')) (fst ((1::int, 0::int, 0::int), ''ooo''))
   \<and> bfs_while accepting_helpers ((0, 0, 0), ''xxz'') ((1, 0, 0), ''ooo'') []
        (manhattan (fst ((0::int, 0::int, 0::int), ''xxz'')) (fst ((1::int, 0::int, 0::int), ''ooo'')))
        \<lparr>queue = [((8, 0, 0), ''xxz''), ((1, 0, 0), ''oxz'')],
         visited = Map.empty, path_length = Map.empty, path = Map.empty,
         hadamard_flag = False\<rparr>
       = Some (Inr (False, -1, None))"
proof -
  have far: "manhattan (fst ((8::int, 0::int, 0::int), ''xxz'')) (fst ((1::int, 0::int, 0::int), ''ooo''))
     > 6 * manhattan (fst ((0::int, 0::int, 0::int), ''xxz'')) (fst ((1::int, 0::int, 0::int), ''ooo''))"
    by (simp add: manhattan_def)
  have q: "queue \<lparr>queue = [((8, 0, 0), ''xxz''), ((1, 0, 0), ''oxz'')],
         visited = Map.empty, path_length = Map.empty, path = Map.empty,
         hadamard_flag = False\<rparr> = ((8, 0, 0), ''xxz'') # [((1, 0, 0), ''oxz'')]" by simp
  from bfs_while_distance_abort [OF q far, of accepting_helpers "[]"] far show ?thesis by simp
qed

text \<open>
  C5 (as amended). When source and target have the same coordinate and the target kind is
  \<^verbatim>\<open>"ooo"\<close> or equals the source kind, the search returns success at once, with length 0
  and the source block as the whole path, for every obstacle list and flag.
\<close>

theorem bfs_extended_3d_same_coordinate:
  assumes "fst source_node = fst target_node"
    and "snd target_node = ''ooo'' \<or> snd source_node = snd target_node"
  shows "snd (bfs_extended_3d h source_node target_node forbidden_cords flag)
           = Some (Inr (True, 0, Some [source_node]))"
  using assms by (simp add: bfs_extended_3d_run)

theorem bfs_extended_3d_same_coordinate_witness:
  "fst ((4::int, -2::int, 0::int), ''zxo'') = fst ((4::int, -2::int, 0::int), ''zxo'')
   \<and> snd (bfs_extended_3d accepting_helpers ((4, -2, 0), ''zxo'') ((4, -2, 0), ''zxo'')
            [(4, -2, 0), (5, -2, 0)] False)
       = Some (Inr (True, 0, Some [((4, -2, 0), ''zxo'')]))"
  using bfs_extended_3d_same_coordinate
    [of "((4, -2, 0), ''zxo'')" "((4, -2, 0), ''zxo'')" accepting_helpers
        "[(4, -2, 0), (5, -2, 0)]" False]
  by simp

text \<open>
  C5 as stated fails: with the same coordinate but the kinds \<^verbatim>\<open>"xxz"\<close> and \<^verbatim>\<open>"xzx"\<close> the
  goal test does not pass and the search does not return the single-block path.
\<close>

theorem bfs_extended_3d_same_coordinate_counterexample:
  "snd (bfs_extended_3d accepting_helpers ((0, 0, 0), ''xxz'') ((0, 0, 0), ''xzx'') [] False)
     \<noteq> Some (Inr (True, 0, Some [((0, 0, 0), ''xxz'')]))"
  by (simp add: bfs_extended_3d_run spatial_moves_def expand_move_def reorient_def call_raises)

text \<open>
  On a list without repetitions, taking an endpoint out first changes nothing in what lines
  168 to 171 leave behind.
\<close>

lemma removal_of_listed_endpoint:
  assumes "distinct obs" and "c = s \<or> c = t"
  shows "remove1 t (remove1 s (removeAll c obs)) = remove1 t (remove1 s obs)"
proof -
  have d1: "distinct (removeAll c obs)" using assms(1) by (rule distinct_removeAll)
  have "remove1 t (remove1 s (removeAll c obs)) = removeAll t (removeAll s (removeAll c obs))"
    using d1 by (simp add: distinct_remove1_removeAll distinct_removeAll)
  also have "\<dots> = removeAll t (removeAll s obs)"
    using assms(2) by (auto simp: removeAll_filter_not_eq intro: filter_cong)
  also have "\<dots> = remove1 t (remove1 s obs)"
    using assms(1) by (simp add: distinct_remove1_removeAll distinct_removeAll)
  finally show ?thesis .
qed

text \<open>
  C7. The obstacles are a set of coordinates, listed without repetition. For such a list
  and for \<open>c\<close> the source or the target coordinate, the search returns (or raises) the same
  with the list as given and with \<open>c\<close> taken out of it: whether an endpoint is listed among
  the obstacles makes no difference.
\<close>

theorem bfs_extended_3d_endpoint_in_obstacles:
  assumes "distinct forbidden_cords"
    and "c = fst source_node \<or> c = fst target_node"
  shows "snd (bfs_extended_3d h source_node target_node forbidden_cords flag)
       = snd (bfs_extended_3d h source_node target_node (removeAll c forbidden_cords) flag)"
  unfolding bfs_extended_3d_unfold snd_conv removal_of_listed_endpoint [OF assms] ..

theorem bfs_extended_3d_endpoint_in_obstacles_witness:
  "distinct [(-1::int, 0::int, 0::int), (1, 0, 0), (0, 1, 0), (0, -1, 0), (0, 0, 1), (0, 0, -1)]
   \<and> (1::int, 0::int, 0::int) = fst ((1::int, 0::int, 0::int), ''ooo'')
   \<and> snd (bfs_extended_3d accepting_helpers ((0, 0, 0), ''zxo'') ((1, 0, 0), ''ooo'')
          [(-1, 0, 0), (1, 0, 0), (0, 1, 0), (0, -1, 0), (0, 0, 1), (0, 0, -1)] False)
     = snd (bfs_extended_3d accepting_helpers ((0, 0, 0), ''zxo'') ((1, 0, 0), ''ooo'')
          [(-1, 0, 0), (0, 1, 0), (0, -1, 0), (0, 0, 1), (0, 0, -1)] False)"
proof -
  have d: "distinct [(-1::int, 0::int, 0::int), (1, 0, 0), (0, 1, 0), (0, -1, 0), (0, 0, 1), (0, 0, -1)]"
    by simp
  have e: "(1::int, 0::int, 0::int) = fst ((0::int, 0::int, 0::int), ''zxo'')
        \<or> (1::int, 0::int, 0::int) = fst ((1::int, 0::int, 0::int), ''ooo'')" by simp
  from bfs_extended_3d_endpoint_in_obstacles [OF d e, of accepting_helpers False] d
  show ?thesis by simp
qed

section \<open>The kinds of a neighbour\<close>

lemma keep_passing_filter:
  "keep_passing test xs = Inr ys \<Longrightarrow> ys = filter (\<lambda>x. test x = Inr True) xs"
proof (induction xs arbitrary: ys)
  case Nil
  then show ?case by simp
next
  case (Cons x xs)
  then show ?case by (auto split: sum.splits if_splits)
qed

lemma keep_passing_returns:
  "\<forall>x \<in> set xs. \<exists>b. test x = Inr b \<Longrightarrow> \<exists>ys. keep_passing test xs = Inr ys"
  by (induction xs) (auto split: sum.splits)

lemma check_cube_match_returns:
  "\<forall>c kd c' e. is_exit c kd c' \<noteq> Inl e \<Longrightarrow> \<exists>b. check_cube_match is_exit cur k nxt k' = Inr b"
proof -
  assume total: "\<forall>c kd c' e. is_exit c kd c' \<noteq> Inl e"
  then obtain forward where f: "is_exit cur (lower k) nxt = Inr forward"
    by (cases "is_exit cur (lower k) nxt") blast+
  from total obtain backward where b: "is_exit nxt (lower k') cur = Inr backward"
    by (cases "is_exit nxt (lower k') cur") blast+
  show ?thesis unfolding check_cube_match_def Let_def f b by (cases forward; cases backward) auto
qed

lemma check_face_match_returns:
  assumes "cur \<noteq> nxt"
  shows "\<exists>b. check_face_match cur k nxt k' = Inr b"
proof -
  obtain a0 a1 a2 b0 b1 b2 where ab: "cur = (a0, a1, a2)" "nxt = (b0, b1, b2)"
    by (metis prod_cases3)
  from assms have "\<exists>i. index_of True [b0 - a0 \<noteq> 0, b1 - a1 \<noteq> 0, b2 - a2 \<noteq> 0] = Some i"
    unfolding ab by auto
  then show ?thesis unfolding check_face_match_def ab by (auto simp: Let_def)
qed

lemma cube_kinds_closed: "k' \<in> set all_cube_kinds \<Longrightarrow> CHR ''o'' \<notin> set k'"
  by (auto simp: all_cube_kinds_def)

lemma pipe_kinds_open: "k' \<in> set all_pipe_kinds \<Longrightarrow> CHR ''o'' \<in> set k'"
  by (auto simp: all_pipe_kinds_def)

text \<open>
  C4. Whenever \<^verbatim>\<open>get_valid_next_kinds\<close> returns, the kinds it returns are exactly the kinds
  of the family (the cube kinds when the current kind contains \<^verbatim>\<open>o\<close>, the pipe kinds, plain
  and Hadamard, otherwise) that pass both \<^verbatim>\<open>check_cube_match\<close> and
  \<^verbatim>\<open>check_face_match\<close>, in the order of the family; so they are cube kinds without
  \<^verbatim>\<open>o\<close> in the first case and pipe kinds with \<^verbatim>\<open>o\<close> in the second. It does return when
  the two positions differ and \<^verbatim>\<open>check_is_exit\<close> never raises.
\<close>

theorem get_valid_next_kinds_family:
  "(\<forall>kinds. get_valid_next_kinds is_exit current_pos current_kind next_pos = Inr kinds \<longrightarrow>
      kinds = filter (\<lambda>next_kind.
                 check_cube_match is_exit current_pos current_kind next_pos next_kind = Inr True
                 \<and> check_face_match current_pos current_kind next_pos next_kind = Inr True)
               (if CHR ''o'' \<in> set current_kind then all_cube_kinds else all_pipe_kinds)
      \<and> (CHR ''o'' \<in> set current_kind \<longrightarrow>
           (\<forall>next_kind \<in> set kinds. next_kind \<in> set all_cube_kinds \<and> CHR ''o'' \<notin> set next_kind))
      \<and> (CHR ''o'' \<notin> set current_kind \<longrightarrow>
           (\<forall>next_kind \<in> set kinds. next_kind \<in> set all_pipe_kinds \<and> CHR ''o'' \<in> set next_kind)))
   \<and> (current_pos \<noteq> next_pos \<and> (\<forall>c kd c' e. is_exit c kd c' \<noteq> Inl e) \<longrightarrow>
        (\<exists>kinds. get_valid_next_kinds is_exit current_pos current_kind next_pos = Inr kinds))"
proof (intro conjI allI impI)
  fix kinds
  assume run: "get_valid_next_kinds is_exit current_pos current_kind next_pos = Inr kinds"
  let ?family = "if CHR ''o'' \<in> set current_kind then all_cube_kinds else all_pipe_kinds"
  from run obtain possible_kinds where
    first: "keep_passing (check_cube_match is_exit current_pos current_kind next_pos) ?family
              = Inr possible_kinds" and
    second: "keep_passing (check_face_match current_pos current_kind next_pos) possible_kinds
              = Inr kinds"
    unfolding get_valid_next_kinds_def by (auto split: sum.splits)
  from keep_passing_filter [OF first] keep_passing_filter [OF second]
  show eq: "kinds = filter (\<lambda>next_kind.
                 check_cube_match is_exit current_pos current_kind next_pos next_kind = Inr True
                 \<and> check_face_match current_pos current_kind next_pos next_kind = Inr True)
               ?family"
    by (simp add: conj_commute)
  { assume "CHR ''o'' \<in> set current_kind"
    with eq show "\<forall>next_kind \<in> set kinds. next_kind \<in> set all_cube_kinds \<and> CHR ''o'' \<notin> set next_kind"
      using cube_kinds_closed by auto }
  { assume "CHR ''o'' \<notin> set current_kind"
    with eq show "\<forall>next_kind \<in> set kinds. next_kind \<in> set all_pipe_kinds \<and> CHR ''o'' \<in> set next_kind"
      using pipe_kinds_open by auto }
next
  assume h: "current_pos \<noteq> next_pos \<and> (\<forall>c kd c' e. is_exit c kd c' \<noteq> Inl e)"
  let ?family = "if CHR ''o'' \<in> set current_kind then all_cube_kinds else all_pipe_kinds"
  from h have "\<forall>x \<in> set ?family. \<exists>b. check_cube_match is_exit current_pos current_kind next_pos x = Inr b"
    using check_cube_match_returns by blast
  then obtain possible_kinds where
    first: "keep_passing (check_cube_match is_exit current_pos current_kind next_pos) ?family
              = Inr possible_kinds"
    using keep_passing_returns by blast
  from h have "\<forall>x \<in> set possible_kinds. \<exists>b. check_face_match current_pos current_kind next_pos x = Inr b"
    using check_face_match_returns by blast
  then obtain kinds where
    "keep_passing (check_face_match current_pos current_kind next_pos) possible_kinds = Inr kinds"
    using keep_passing_returns by blast
  with first show "\<exists>kinds. get_valid_next_kinds is_exit current_pos current_kind next_pos = Inr kinds"
    unfolding get_valid_next_kinds_def by simp
qed

lemma sample_kinds:
  "get_valid_next_kinds (check_is_exit accepting_helpers) (0, 0, 0) ''xxz'' (1, 0, 0)
     = Inr [''oxz'', ''oxzh'']"
  by (simp add: get_valid_next_kinds_def accepting_helpers_def all_pipe_kinds_def
      check_cube_match_def check_face_match_def lower_def lower_char_def)

theorem get_valid_next_kinds_family_witness:
  "(0::int, 0::int, 0::int) \<noteq> (1, 0, 0)
   \<and> (\<forall>c kd c' e. check_is_exit accepting_helpers c kd c' \<noteq> Inl e)
   \<and> CHR ''o'' \<notin> set ''xxz''
   \<and> get_valid_next_kinds (check_is_exit accepting_helpers) (0, 0, 0) ''xxz'' (1, 0, 0)
       = Inr [''oxz'', ''oxzh'']
   \<and> [''oxz'', ''oxzh''] = filter (\<lambda>next_kind.
         check_cube_match (check_is_exit accepting_helpers) (0, 0, 0) ''xxz'' (1, 0, 0) next_kind
           = Inr True
         \<and> check_face_match (0, 0, 0) ''xxz'' (1, 0, 0) next_kind = Inr True) all_pipe_kinds
   \<and> ''oxz'' \<in> set all_pipe_kinds \<and> CHR ''o'' \<in> set ''oxz''
   \<and> ''oxzh'' \<in> set all_pipe_kinds \<and> CHR ''o'' \<in> set ''oxzh''"
proof -
  have total: "\<forall>c kd c' e. check_is_exit accepting_helpers c kd c' \<noteq> Inl e"
    by (simp add: accepting_helpers_def)
  have apart: "(0::int, 0::int, 0::int) \<noteq> (1, 0, 0)" by simp
  have cube: "CHR ''o'' \<notin> set ''xxz''" by simp
  note family = get_valid_next_kinds_family
         [of "check_is_exit accepting_helpers" "(0, 0, 0)" "''xxz''" "(1, 0, 0)",
          THEN conjunct1, rule_format, OF sample_kinds]
  from family cube have kinds: "[''oxz'', ''oxzh''] = filter (\<lambda>next_kind.
         check_cube_match (check_is_exit accepting_helpers) (0, 0, 0) ''xxz'' (1, 0, 0) next_kind
           = Inr True
         \<and> check_face_match (0, 0, 0) ''xxz'' (1, 0, 0) next_kind = Inr True) all_pipe_kinds"
    by presburger
  from family cube have pipes: "\<forall>next_kind \<in> set [''oxz'', ''oxzh''].
         next_kind \<in> set all_pipe_kinds \<and> CHR ''o'' \<in> set next_kind"
    by blast
  from pipes have members: "''oxz'' \<in> set all_pipe_kinds \<and> CHR ''o'' \<in> set ''oxz''
      \<and> ''oxzh'' \<in> set all_pipe_kinds \<and> CHR ''o'' \<in> set ''oxzh''"
    by simp
  from total apart cube sample_kinds kinds members show ?thesis by blast
qed

section \<open>The kinds of a target\<close>

text \<open>
  C6. An override kind (a non-empty string; the test \<^verbatim>\<open>if overwrite_target_type:\<close> takes
  the empty string, which is no kind, for a missing override) is returned alone. Without an
  override the five ZX types \<^verbatim>\<open>X\<close>, \<^verbatim>\<open>Z\<close>, \<^verbatim>\<open>O\<close>, \<^verbatim>\<open>SIMPLE\<close> and \<^verbatim>\<open>HADAMARD\<close> give
  their fixed families, of 3, 3, 1, 6 and 6 kinds, and every other ZX type is returned
  alone.
\<close>

theorem generate_tentative_target_types_families:
  "(kind \<noteq> [] \<longrightarrow> generate_tentative_target_types zx (Some kind) = [kind])
   \<and> generate_tentative_target_types zx (Some []) = generate_tentative_target_types zx None
   \<and> generate_tentative_target_types ''X'' None = [''xxz'', ''xzx'', ''zxx'']
   \<and> generate_tentative_target_types ''Z'' None = [''xzz'', ''zzx'', ''zxz'']
   \<and> generate_tentative_target_types ''O'' None = [''ooo'']
   \<and> generate_tentative_target_types ''SIMPLE'' None
       = [''zxo'', ''xzo'', ''oxz'', ''ozx'', ''xoz'', ''zox'']
   \<and> generate_tentative_target_types ''HADAMARD'' None
       = [''zxoh'', ''xzoh'', ''oxzh'', ''ozxh'', ''xozh'', ''zoxh'']
   \<and> length (generate_tentative_target_types ''X'' None) = 3
   \<and> length (generate_tentative_target_types ''Z'' None) = 3
   \<and> length (generate_tentative_target_types ''O'' None) = 1
   \<and> length (generate_tentative_target_types ''SIMPLE'' None) = 6
   \<and> length (generate_tentative_target_types ''HADAMARD'' None) = 6
   \<and> (zx \<notin> set [''X'', ''Z'', ''O'', ''SIMPLE'', ''HADAMARD''] \<longrightarrow>
        generate_tentative_target_types zx None = [zx])"
  by (simp add: generate_tentative_target_types_def)

theorem generate_tentative_target_types_families_witness:
  "''xzx'' \<noteq> [] \<and> generate_tentative_target_types ''X'' (Some ''xzx'') = [''xzx'']
   \<and> ''Y'' \<notin> set [''X'', ''Z'', ''O'', ''SIMPLE'', ''HADAMARD'']
   \<and> generate_tentative_target_types ''Y'' None = [''Y'']"
  using generate_tentative_target_types_families [of "''xzx''" "''X''"]
    generate_tentative_target_types_families [of "''xzx''" "''Y''"]
  by simp

section \<open>The obstacle list after a search\<close>

lemma remove1_count_once:
  "count_list xs c \<le> 1 \<Longrightarrow> c \<notin> set (remove1 c xs)"
  by (induction xs) (auto simp: count_list_0_iff split: if_splits)

lemma search_all_types_step:
  "search_all_types h source_node pos flag (kind # rest) r =
     (case snd (bfs_extended_3d h source_node (pos, kind) (obstacle_coords r) flag) of
        None \<Rightarrow> None
      | Some (Inl e) \<Rightarrow> Some (Inl e)
      | Some (Inr candidate) \<Rightarrow>
          search_all_types h source_node pos flag rest
            (keep_shortest candidate
               (r\<lparr>obstacle_coords := remove1 pos (remove1 (fst source_node) (obstacle_coords r))\<rparr>)))"
  by (simp add: bfs_extended_3d_unfold split: option.splits sum.splits)

text \<open>
  C10. Whatever the search returns or raises, it leaves the caller's obstacle list without
  the first occurrence of the source coordinate and without the first occurrence of the
  target coordinate; an endpoint that occurred at most once is then no longer in the list.
  The driver hands the list so left to the next search of the round.
\<close>

theorem bfs_extended_3d_mutates_obstacles:
  "fst (bfs_extended_3d h source_node target_node forbidden_cords flag)
     = remove1 (fst target_node) (remove1 (fst source_node) forbidden_cords)
   \<and> ((c = fst source_node \<or> c = fst target_node) \<and> count_list forbidden_cords c \<le> 1 \<longrightarrow>
        c \<notin> set (fst (bfs_extended_3d h source_node target_node forbidden_cords flag)))
   \<and> search_all_types h source_node pos flag (kind # rest) r =
       (case snd (bfs_extended_3d h source_node (pos, kind) (obstacle_coords r) flag) of
          None \<Rightarrow> None
        | Some (Inl e) \<Rightarrow> Some (Inl e)
        | Some (Inr candidate) \<Rightarrow>
            search_all_types h source_node pos flag rest
              (keep_shortest candidate
                 (r\<lparr>obstacle_coords :=
                      remove1 pos (remove1 (fst source_node) (obstacle_coords r))\<rparr>)))"
proof (intro conjI impI)
  show "fst (bfs_extended_3d h source_node target_node forbidden_cords flag)
     = remove1 (fst target_node) (remove1 (fst source_node) forbidden_cords)"
    by (simp add: bfs_extended_3d_unfold)
  show "search_all_types h source_node pos flag (kind # rest) r =
       (case snd (bfs_extended_3d h source_node (pos, kind) (obstacle_coords r) flag) of
          None \<Rightarrow> None
        | Some (Inl e) \<Rightarrow> Some (Inl e)
        | Some (Inr candidate) \<Rightarrow>
            search_all_types h source_node pos flag rest
              (keep_shortest candidate
                 (r\<lparr>obstacle_coords :=
                      remove1 pos (remove1 (fst source_node) (obstacle_coords r))\<rparr>)))"
    by (rule search_all_types_step)
next
  assume a: "(c = fst source_node \<or> c = fst target_node) \<and> count_list forbidden_cords c \<le> 1"
  then have once: "count_list forbidden_cords c \<le> 1" by simp
  have "c \<notin> set (remove1 (fst target_node) (remove1 (fst source_node) forbidden_cords))"
  proof (cases "c = fst source_node")
    case True
    from once have "c \<notin> set (remove1 c forbidden_cords)" by (rule remove1_count_once)
    then show ?thesis unfolding True using notin_set_remove1 by fast
  next
    case False
    with a have t: "c = fst target_node" by simp
    from once have "c \<notin> set (remove1 c forbidden_cords)" by (rule remove1_count_once)
    then have "c \<notin> set (remove1 (fst source_node) (remove1 c forbidden_cords))"
      using notin_set_remove1 by fast
    then show ?thesis unfolding t by (simp add: remove1_commute)
  qed
  then show "c \<notin> set (fst (bfs_extended_3d h source_node target_node forbidden_cords flag))"
    by (simp add: bfs_extended_3d_unfold)
qed

theorem bfs_extended_3d_mutates_obstacles_witness:
  "fst (bfs_extended_3d accepting_helpers ((0, 0, 0), ''xxz'') ((3, 0, 0), ''ooo'')
          [(0, 0, 0), (2, 0, 0), (3, 0, 0)] False) = [(2, 0, 0)]
   \<and> count_list [(0::int, 0::int, 0::int), (2, 0, 0), (3, 0, 0)] (3, 0, 0) \<le> 1
   \<and> (3, 0, 0) \<notin> set (fst (bfs_extended_3d accepting_helpers ((0, 0, 0), ''xxz'')
          ((3, 0, 0), ''ooo'') [(0, 0, 0), (2, 0, 0), (3, 0, 0)] False))"
  using bfs_extended_3d_mutates_obstacles
    [of accepting_helpers "((0, 0, 0), ''xxz'')" "((3, 0, 0), ''ooo'')"
        "[(0, 0, 0), (2, 0, 0), (3, 0, 0)]" False "(3, 0, 0)"]
  by simp

section \<open>The driver\<close>

lemma settle_simps:
  "settle r None = None"
  "settle r (Some (Inl e)) = Some (Inl e)"
  "settle r (Some (Inr (cs, left))) = Some (Inr ((fold keep_shortest cs r)\<lparr>obstacle_coords := left\<rparr>))"
  by (simp_all add: settle_def)

lemma keep_shortest_obstacles:
  "keep_shortest c (r\<lparr>obstacle_coords := x\<rparr>) = (keep_shortest c r)\<lparr>obstacle_coords := x\<rparr>"
  by (cases c) (simp add: keep_shortest_def Let_def split: option.splits)

lemma fold_keep_shortest_obstacles:
  "fold keep_shortest cs (r\<lparr>obstacle_coords := x\<rparr>) = (fold keep_shortest cs r)\<lparr>obstacle_coords := x\<rparr>"
  by (induction cs arbitrary: r) (simp_all add: keep_shortest_obstacles)

lemma path_found_keep_shortest: "path_found (keep_shortest c r) = (path_found r \<or> fst c)"
  by (cases c) (simp add: keep_shortest_def Let_def split: option.splits)

lemma path_found_fold: "path_found (fold keep_shortest cs r) = (path_found r \<or> list_ex fst cs)"
  by (induction cs arbitrary: r) (auto simp: path_found_keep_shortest)

lemma search_all_types_trace:
  "search_all_types h src pos flag ks r =
     settle r (searches_of_types h src pos flag ks (obstacle_coords r))"
proof (induction ks arbitrary: r)
  case Nil
  show ?case by (simp add: settle_simps)
next
  case (Cons k ks)
  obtain left out where run: "bfs_extended_3d h src (pos, k) (obstacle_coords r) flag = (left, out)"
    by (cases "bfs_extended_3d h src (pos, k) (obstacle_coords r) flag")
  show ?case
  proof (cases out)
    case None
    with run show ?thesis by (simp add: settle_simps)
  next
    case (Some res)
    show ?thesis
    proof (cases res)
      case (Inl e)
      with run Some show ?thesis by (simp add: settle_simps)
    next
      case (Inr c)
      let ?r1 = "keep_shortest c (r\<lparr>obstacle_coords := left\<rparr>)"
      have left: "obstacle_coords ?r1 = left" by (simp add: keep_shortest_obstacles)
      have step: "search_all_types h src pos flag (k # ks) r
                    = settle ?r1 (searches_of_types h src pos flag ks left)"
        using run Some Inr Cons.IH [of ?r1] left by simp
      show ?thesis
      proof (cases "searches_of_types h src pos flag ks left")
        case None
        with step run Some Inr show ?thesis by (simp add: settle_simps)
      next
        case later: (Some res')
        show ?thesis
        proof (cases res')
          case (Inl e)
          with later step run Some Inr show ?thesis by (simp add: settle_simps)
        next
          case inner: (Inr pair)
          obtain cs left' where pair: "pair = (cs, left')" by (cases pair)
          have "search_all_types h src pos flag (k # ks) r
                  = Some (Inr ((fold keep_shortest cs ?r1)\<lparr>obstacle_coords := left'\<rparr>))"
            unfolding step later inner pair by (simp add: settle_simps)
          moreover have "searches_of_types h src pos flag (k # ks) (obstacle_coords r)
                  = Some (Inr (c # cs, left'))"
            using run Some Inr later inner pair by simp
          ultimately show ?thesis
            by (simp add: settle_simps keep_shortest_obstacles fold_keep_shortest_obstacles)
        qed
      qed
    qed
  qed
qed


lemma attempts_trace:
  "attempts h src zx distance max_distance ov b flag n r =
     settle r (searches_of_attempts h src zx distance max_distance ov b flag n
                 (obstacle_coords r) (path_found r))"
proof (induction n arbitrary: r)
  case 0
  show ?case by (simp add: settle_simps)
next
  case (Suc n)
  show ?case
  proof (cases "distance > max_distance \<or> path_found r")
    case True
    then show ?thesis by (auto simp: settle_simps)
  next
    case False
    let ?types = "generate_tentative_target_types zx
                    (case snd ov of None \<Rightarrow> None
                     | Some kind \<Rightarrow> if kind = [] then None else Some kind)"
    show ?thesis
    proof (cases "generate_tentative_target_position h src b (obstacle_coords r) (fst ov)")
      case (Inl e)
      with False show ?thesis by (simp add: settle_simps)
    next
      case (Inr target)
      show ?thesis
      proof (cases target)
        case None
        with False Inr show ?thesis by (simp add: Suc.IH)
      next
        case (Some pos)
        show ?thesis
        proof (cases "searches_of_types h src pos flag ?types (obstacle_coords r)")
          case None
          with False Inr Some show ?thesis by (simp add: search_all_types_trace settle_simps)
        next
          case first: (Some res)
          show ?thesis
          proof (cases res)
            case (Inl e)
            with first False Inr Some show ?thesis
              by (simp add: search_all_types_trace settle_simps)
          next
            case inner: (Inr pair)
            obtain cs left where pair: "pair = (cs, left)" by (cases pair)
            let ?r1 = "(fold keep_shortest cs r)\<lparr>obstacle_coords := left\<rparr>"
            have types: "search_all_types h src pos flag ?types r = Some (Inr ?r1)"
              unfolding search_all_types_trace first inner pair by (simp add: settle_simps)
            have found: "path_found ?r1 = (path_found r \<or> list_ex fst cs)"
              by (simp add: path_found_fold)
            have left: "obstacle_coords ?r1 = left" by simp
            let ?later = "searches_of_attempts h src zx distance max_distance ov b flag n left
                            (path_found r \<or> list_ex fst cs)"
            have lhs: "attempts h src zx distance max_distance ov b flag (Suc n) r
                         = settle ?r1 ?later"
              using False Inr Some types Suc.IH [of ?r1] found left by simp
            have rhs: "searches_of_attempts h src zx distance max_distance ov b flag (Suc n)
                         (obstacle_coords r) (path_found r)
                       = (case ?later of
                            None \<Rightarrow> None
                          | Some (Inl e) \<Rightarrow> Some (Inl e)
                          | Some (Inr (later, left')) \<Rightarrow> Some (Inr (cs @ later, left')))"
              using False Inr Some first inner pair by simp
            show ?thesis
            proof (cases ?later)
              case None
              then show ?thesis unfolding lhs rhs by (simp add: settle_simps)
            next
              case second: (Some res')
              show ?thesis
              proof (cases res')
                case (Inl e)
                with second show ?thesis unfolding lhs rhs by (simp add: settle_simps)
              next
                case inner': (Inr pair')
                obtain later left' where pair': "pair' = (later, left')" by (cases pair')
                show ?thesis unfolding lhs rhs second inner' pair'
                  by (simp add: settle_simps fold_keep_shortest_obstacles)
              qed
            qed
          qed
        qed
      qed
    qed
  qed
qed

lemma summarises_step:
  assumes "summarises cs r"
  shows "summarises (cs @ [c]) (keep_shortest c r)"
proof -
  obtain ok n p where c: "c = (ok, n, p)" by (cases c)
  show ?thesis
  proof (cases ok)
    case False
    with assms show ?thesis unfolding c summarises_def keep_shortest_def by auto
  next
    case True
    show ?thesis
    proof (cases "length_best r")
      case None
      with assms have none: "\<forall>c' \<in> set cs. \<not> fst c'" unfolding summarises_def by auto
      with assms True None show ?thesis
        unfolding c summarises_def keep_shortest_def by (auto simp: Let_def list_ex_iff)
    next
      case (Some m)
      with assms True show ?thesis
        unfolding c summarises_def keep_shortest_def
        by (auto simp: Let_def list_ex_iff)
    qed
  qed
qed

lemma summarises_fold:
  "summarises cs0 r \<Longrightarrow> summarises (cs0 @ cs) (fold keep_shortest cs r)"
proof (induction cs arbitrary: cs0 r)
  case Nil
  then show ?case by simp
next
  case (Cons c cs)
  from Cons.prems have "summarises (cs0 @ [c]) (keep_shortest c r)" by (rule summarises_step)
  from Cons.IH [OF this] show ?case by simp
qed

lemma summarises_start:
  "summarises [] \<lparr>all_paths_from_round = [], min_path_length = None, path_found = False,
                 length_best = None, path_best = None, obstacle_coords = obstacles\<rparr>"
  by (simp add: summarises_def)


lemma summarises_all: "summarises candidates (fold keep_shortest candidates (no_results obstacles))"
proof -
  have "summarises ([] @ candidates) (fold keep_shortest candidates (no_results obstacles))"
    unfolding no_results_def by (rule summarises_fold [OF summarises_start])
  then show ?thesis by simp
qed

lemma fold_fields:
  "path_found ((fold keep_shortest cs r)\<lparr>obstacle_coords := x\<rparr>) = path_found (fold keep_shortest cs r)"
  "length_best ((fold keep_shortest cs r)\<lparr>obstacle_coords := x\<rparr>) = length_best (fold keep_shortest cs r)"
  "path_best ((fold keep_shortest cs r)\<lparr>obstacle_coords := x\<rparr>) = path_best (fold keep_shortest cs r)"
  "all_paths_from_round ((fold keep_shortest cs r)\<lparr>obstacle_coords := x\<rparr>)
     = all_paths_from_round (fold keep_shortest cs r)"
  by simp_all

lemma fields_any_obstacles:
  "path_found (fold keep_shortest cs (no_results x)) = path_found (fold keep_shortest cs (no_results y))"
  "length_best (fold keep_shortest cs (no_results x)) = length_best (fold keep_shortest cs (no_results y))"
  "path_best (fold keep_shortest cs (no_results x)) = path_best (fold keep_shortest cs (no_results y))"
  "all_paths_from_round (fold keep_shortest cs (no_results x))
     = all_paths_from_round (fold keep_shortest cs (no_results y))"
proof -
  have "no_results x = (no_results y)\<lparr>obstacle_coords := x\<rparr>" by (simp add: no_results_def)
  then have "fold keep_shortest cs (no_results x)
      = (fold keep_shortest cs (no_results y))\<lparr>obstacle_coords := x\<rparr>"
    by (simp add: fold_keep_shortest_obstacles)
  then show
    "path_found (fold keep_shortest cs (no_results x)) = path_found (fold keep_shortest cs (no_results y))"
    "length_best (fold keep_shortest cs (no_results x)) = length_best (fold keep_shortest cs (no_results y))"
    "path_best (fold keep_shortest cs (no_results x)) = path_best (fold keep_shortest cs (no_results y))"
    "all_paths_from_round (fold keep_shortest cs (no_results x))
       = all_paths_from_round (fold keep_shortest cs (no_results y))"
    by simp_all
qed

lemma run_is_fold:
  "run_bfs_for_all_potential_target_nodes h source_node target_node_zx_type distance
      max_distance attempts_per_distance overwrite_target_node occupied_coords flag
   = (case searches_of_run h source_node target_node_zx_type distance max_distance
             attempts_per_distance overwrite_target_node occupied_coords flag of
        None \<Rightarrow> None
      | Some (Inl e) \<Rightarrow> Some (Inl e)
      | Some (Inr candidates) \<Rightarrow>
          Some (Inr (path_found (fold keep_shortest candidates (no_results occupied_coords)),
                     length_best (fold keep_shortest candidates (no_results occupied_coords)),
                     path_best (fold keep_shortest candidates (no_results occupied_coords)),
                     all_paths_from_round
                       (fold keep_shortest candidates (no_results occupied_coords)))))"
proof -
  obtain start_coords kind where src: "source_node = (start_coords, kind)" by (cases source_node)
  obtain ov_coords ov_type where ov: "overwrite_target_node = (ov_coords, ov_type)"
    by (cases overwrite_target_node)
  define obstacles where "obstacles =
     (if occupied_coords \<noteq> [] \<and> start_coords \<in> set occupied_coords
      then remove1 start_coords occupied_coords else occupied_coords)"
  define b where "b = determine_grid_size start_coords
     (case ov_coords of None \<Rightarrow> (0, 0, 0) | Some c \<Rightarrow> c) obstacles 5"
  define trace where "trace = searches_of_attempts h source_node target_node_zx_type distance
     max_distance overwrite_target_node b flag (nat attempts_per_distance) obstacles False"
  have run: "run_bfs_for_all_potential_target_nodes h source_node target_node_zx_type distance
             max_distance attempts_per_distance overwrite_target_node occupied_coords flag
      = (case settle (no_results obstacles) trace of
           None \<Rightarrow> None
         | Some (Inl e) \<Rightarrow> Some (Inl e)
         | Some (Inr r) \<Rightarrow>
             Some (Inr (path_found r, length_best r, path_best r, all_paths_from_round r)))"
    unfolding run_bfs_for_all_potential_target_nodes_def src ov trace_def no_results_def b_def
      obstacles_def
    by (simp add: Let_def attempts_trace)
  have tr: "searches_of_run h source_node target_node_zx_type distance max_distance
             attempts_per_distance overwrite_target_node occupied_coords flag
      = (case trace of
           None \<Rightarrow> None
         | Some (Inl e) \<Rightarrow> Some (Inl e)
         | Some (Inr (candidates, _)) \<Rightarrow> Some (Inr candidates))"
    unfolding searches_of_run_def src ov trace_def b_def obstacles_def
    by (simp add: Let_def)
  show ?thesis
  proof (cases trace)
    case None
    then show ?thesis unfolding run tr by (simp add: settle_simps)
  next
    case (Some res)
    show ?thesis
    proof (cases res)
      case (Inl e)
      with Some show ?thesis unfolding run tr by (simp add: settle_simps)
    next
      case (Inr pair)
      obtain cs left where pair: "pair = (cs, left)" by (cases pair)
      show ?thesis unfolding run tr Some Inr pair
        by (simp add: settle_simps fields_any_obstacles [of cs obstacles occupied_coords])
    qed
  qed
qed

text \<open>
  C8. For every list of search results, handled one after the other by lines 120 to 127
  from the driver's initial variables: the list of all paths holds the paths of the
  successful results, in order; the found flag says whether there is one; the reported
  length is at most the length of every successful result; and when there is one, the
  reported length and path are those of one of the successful results, and the path is in
  the list of all paths. The driver reports exactly this for the results of the searches it
  runs.
\<close>

theorem run_bfs_reports_shortest:
  "(let r = fold keep_shortest candidates (no_results obstacles) in
      all_paths_from_round r = map (snd \<circ> snd) (filter fst candidates)
      \<and> path_found r = list_ex fst candidates
      \<and> (\<forall>c \<in> set candidates. fst c \<longrightarrow> (\<exists>m. length_best r = Some m \<and> m \<le> fst (snd c)))
      \<and> (list_ex fst candidates \<longrightarrow>
           (\<exists>n. (True, n, path_best r) \<in> set candidates \<and> length_best r = Some n)
           \<and> path_best r \<in> set (all_paths_from_round r)))
   \<and> run_bfs_for_all_potential_target_nodes h source_node target_node_zx_type distance
        max_distance attempts_per_distance overwrite_target_node occupied_coords flag
      = (case searches_of_run h source_node target_node_zx_type distance max_distance
               attempts_per_distance overwrite_target_node occupied_coords flag of
           None \<Rightarrow> None
         | Some (Inl e) \<Rightarrow> Some (Inl e)
         | Some (Inr searched) \<Rightarrow>
             Some (Inr (path_found (fold keep_shortest searched (no_results occupied_coords)),
                        length_best (fold keep_shortest searched (no_results occupied_coords)),
                        path_best (fold keep_shortest searched (no_results occupied_coords)),
                        all_paths_from_round
                          (fold keep_shortest searched (no_results occupied_coords)))))"
proof (rule conjI)
  let ?r = "fold keep_shortest candidates (no_results obstacles)"
  have sum: "summarises candidates ?r" by (rule summarises_all)
  have paths: "all_paths_from_round ?r = map (snd \<circ> snd) (filter fst candidates)"
    using sum unfolding summarises_def by simp
  have found: "path_found ?r = list_ex fst candidates"
    using sum unfolding summarises_def by simp
  have least: "\<forall>c \<in> set candidates. fst c \<longrightarrow> (\<exists>m. length_best ?r = Some m \<and> m \<le> fst (snd c))"
    using sum unfolding summarises_def by simp
  have winner: "list_ex fst candidates \<longrightarrow>
      (\<exists>n. (True, n, path_best ?r) \<in> set candidates \<and> length_best ?r = Some n)"
    using sum unfolding summarises_def by simp
  have member: "list_ex fst candidates \<longrightarrow> path_best ?r \<in> set (all_paths_from_round ?r)"
  proof
    assume "list_ex fst candidates"
    with winner obtain n where "(True, n, path_best ?r) \<in> set candidates" by blast
    then have "(True, n, path_best ?r) \<in> set (filter fst candidates)" by simp
    then have "(snd \<circ> snd) (True, n, path_best ?r) \<in> (snd \<circ> snd) ` set (filter fst candidates)"
      by (rule imageI)
    then show "path_best ?r \<in> set (all_paths_from_round ?r)" unfolding paths by simp
  qed
  from paths found least winner member
  show "let r = ?r in
      all_paths_from_round r = map (snd \<circ> snd) (filter fst candidates)
      \<and> path_found r = list_ex fst candidates
      \<and> (\<forall>c \<in> set candidates. fst c \<longrightarrow> (\<exists>m. length_best r = Some m \<and> m \<le> fst (snd c)))
      \<and> (list_ex fst candidates \<longrightarrow>
           (\<exists>n. (True, n, path_best r) \<in> set candidates \<and> length_best r = Some n)
           \<and> path_best r \<in> set (all_paths_from_round r))"
    unfolding Let_def by blast
next
  show "run_bfs_for_all_potential_target_nodes h source_node target_node_zx_type distance
        max_distance attempts_per_distance overwrite_target_node occupied_coords flag
      = (case searches_of_run h source_node target_node_zx_type distance max_distance
               attempts_per_distance overwrite_target_node occupied_coords flag of
           None \<Rightarrow> None
         | Some (Inl e) \<Rightarrow> Some (Inl e)
         | Some (Inr searched) \<Rightarrow>
             Some (Inr (path_found (fold keep_shortest searched (no_results occupied_coords)),
                        length_best (fold keep_shortest searched (no_results occupied_coords)),
                        path_best (fold keep_shortest searched (no_results occupied_coords)),
                        all_paths_from_round
                          (fold keep_shortest searched (no_results occupied_coords)))))"
    by (rule run_is_fold)
qed

lemma bfs_extended_3d_eval:
  "bfs_extended_3d h src tgt obs flag =
     (remove1 (fst tgt) (remove1 (fst src) obs),
      if fst src = fst tgt \<and> (snd tgt = ''ooo'' \<or> snd src = snd tgt)
      then Some (Inr (True, 0, Some [src]))
      else (case for_each (expand_move h src (remove1 (fst tgt) (remove1 (fst src) obs)) src
                     (if CHR ''o'' \<in> set (snd src) then 2 else 1))
                   spatial_moves
                   (snd src, \<lparr>queue = [], visited = [src \<mapsto> 0], path_length = [src \<mapsto> 0],
                              path = [src \<mapsto> [src]], hadamard_flag = flag\<rparr>) of
              Inl e \<Rightarrow> Some (Inl e)
            | Inr _ \<Rightarrow> Some (Inr (False, -1, None))))"
  unfolding bfs_extended_3d_unfold first_pass ..

lemma sample_run:
  "run_bfs_for_all_potential_target_nodes accepting_helpers ((0, 0, 0), ''xxz'') ''O'' 1 30 1
     (Some (0, 0, 0), Some ''ooo'') [(0, 0, 0), (4, 0, 0)] False
   = Some (Inr (True, Some 0, Some [((0, 0, 0), ''xxz'')], [Some [((0, 0, 0), ''xxz'')]]))"
  by (simp add: run_bfs_for_all_potential_target_nodes_def generate_tentative_target_position_def
        generate_tentative_target_types_def bfs_extended_3d_eval keep_shortest_def Let_def)

lemma sample_fold:
  "fold keep_shortest
     [(True, 3, Some [((0, 0, 0), ''xxz''), ((1, 0, 0), ''oxz''), ((3, 0, 0), ''xxz''), ((4, 0, 0), ''oxz'')]),
      (False, -1, None),
      (True, 1, Some [((0, 0, 0), ''xxz''), ((0, 1, 0), ''xoz'')]),
      (True, 1, Some [((0, 0, 0), ''xxz''), ((1, 0, 0), ''oxz'')]),
      (True, 2, Some [((0, 0, 0), ''xxz''), ((1, 0, 0), ''oxz''), ((3, 0, 0), ''xxz'')])]
     (no_results [(9, 9, 9)])
   = \<lparr>all_paths_from_round =
        [Some [((0, 0, 0), ''xxz''), ((1, 0, 0), ''oxz''), ((3, 0, 0), ''xxz''), ((4, 0, 0), ''oxz'')],
         Some [((0, 0, 0), ''xxz''), ((0, 1, 0), ''xoz'')],
         Some [((0, 0, 0), ''xxz''), ((1, 0, 0), ''oxz'')],
         Some [((0, 0, 0), ''xxz''), ((1, 0, 0), ''oxz''), ((3, 0, 0), ''xxz'')]],
      min_path_length = Some 1, path_found = True, length_best = Some 1,
      path_best = Some [((0, 0, 0), ''xxz''), ((0, 1, 0), ''xoz'')],
      obstacle_coords = [(9, 9, 9)]\<rparr>"
  by (simp add: keep_shortest_def no_results_def)

theorem run_bfs_reports_shortest_witness:
  "list_ex fst
     [(True, 3, Some [((0, 0, 0), ''xxz''), ((1, 0, 0), ''oxz''), ((3, 0, 0), ''xxz''), ((4, 0, 0), ''oxz'')]),
      (False, -1, None),
      (True, 1, Some [((0, 0, 0), ''xxz''), ((0, 1, 0), ''xoz'')]),
      (True, 1, Some [((0, 0, 0), ''xxz''), ((1, 0, 0), ''oxz'')]),
      (True, 2, Some [((0, 0, 0), ''xxz''), ((1, 0, 0), ''oxz''), ((3, 0, 0), ''xxz'')])]
   \<and> length_best (fold keep_shortest
     [(True, 3, Some [((0, 0, 0), ''xxz''), ((1, 0, 0), ''oxz''), ((3, 0, 0), ''xxz''), ((4, 0, 0), ''oxz'')]),
      (False, -1, None),
      (True, 1, Some [((0, 0, 0), ''xxz''), ((0, 1, 0), ''xoz'')]),
      (True, 1, Some [((0, 0, 0), ''xxz''), ((1, 0, 0), ''oxz'')]),
      (True, 2, Some [((0, 0, 0), ''xxz''), ((1, 0, 0), ''oxz''), ((3, 0, 0), ''xxz'')])]
     (no_results [(9, 9, 9)])) = Some 1
   \<and> path_best (fold keep_shortest
     [(True, 3, Some [((0, 0, 0), ''xxz''), ((1, 0, 0), ''oxz''), ((3, 0, 0), ''xxz''), ((4, 0, 0), ''oxz'')]),
      (False, -1, None),
      (True, 1, Some [((0, 0, 0), ''xxz''), ((0, 1, 0), ''xoz'')]),
      (True, 1, Some [((0, 0, 0), ''xxz''), ((1, 0, 0), ''oxz'')]),
      (True, 2, Some [((0, 0, 0), ''xxz''), ((1, 0, 0), ''oxz''), ((3, 0, 0), ''xxz'')])]
     (no_results [(9, 9, 9)])) = Some [((0, 0, 0), ''xxz''), ((0, 1, 0), ''xoz'')]
   \<and> (1::int) \<le> 3 \<and> (1::int) \<le> 2
   \<and> run_bfs_for_all_potential_target_nodes accepting_helpers ((0, 0, 0), ''xxz'') ''O'' 1 30 1
        (Some (0, 0, 0), Some ''ooo'') [(0, 0, 0), (4, 0, 0)] False
      = Some (Inr (True, Some 0, Some [((0, 0, 0), ''xxz'')], [Some [((0, 0, 0), ''xxz'')]]))"
  using run_bfs_reports_shortest
    [of "[(True, 3, Some [((0, 0, 0), ''xxz''), ((1, 0, 0), ''oxz''), ((3, 0, 0), ''xxz''), ((4, 0, 0), ''oxz'')]),
      (False, -1, None),
      (True, 1, Some [((0, 0, 0), ''xxz''), ((0, 1, 0), ''xoz'')]),
      (True, 1, Some [((0, 0, 0), ''xxz''), ((1, 0, 0), ''oxz'')]),
      (True, 2, Some [((0, 0, 0), ''xxz''), ((1, 0, 0), ''oxz''), ((3, 0, 0), ''xxz'')])]"
     "[(9, 9, 9)]" accepting_helpers "((0, 0, 0), ''xxz'')" "''O''" 1 30 1
     "(Some (0, 0, 0), Some ''ooo'')" "[(0, 0, 0), (4, 0, 0)]" False]
    sample_fold sample_run
  by simp

end
